theory Spec2Isabelle
  imports Main "HOL-Library.AList"
begin

section \<open>Exceptions and strings\<close>

text \<open>
  The exceptions the program raises or lets through, as values. A \<open>ValueError\<close> carries
  its message, because the handlers print it.

  A Python \<open>str\<close> is modelled as an Isabelle \<open>string\<close>; a \<open>char\<close> stands for the code
  point of the same number, so the model covers strings over U+0000..U+00FF.
\<close>

datatype error = ValueError string | IndexError | KeyError | OverflowError | EOFError

definition ascii_digit :: "char \<Rightarrow> bool" where
  \<comment> \<open>the decimal digits \<open>0\<close>..\<open>9\<close>\<close>
  "ascii_digit c = (48 \<le> (of_char c :: nat) \<and> (of_char c :: nat) \<le> 57)"

definition isdigit :: "char \<Rightarrow> bool" where
  \<comment> \<open>\<open>str.isdigit\<close> on one character: below U+0100 it holds of \<open>0\<close>..\<open>9\<close> and of the
      superscripts U+00B2, U+00B3 and U+00B9\<close>
  "isdigit c = (ascii_digit c \<or> (of_char c :: nat) \<in> {178, 179, 185})"

fun join :: "string \<Rightarrow> string list \<Rightarrow> string" where
  \<comment> \<open>\<open>sep.join(xs)\<close>\<close>
  "join sep [] = []"
| "join sep [x] = x"
| "join sep (x # y # ys) = x @ sep @ join sep (y # ys)"

section \<open>Fields\<close>

text \<open>\<open>Field\<close> holds one attribute, \<open>value\<close>; \<open>Name\<close> and \<open>Phone\<close> add none.\<close>

record Field =
  fvalue :: string

type_synonym Name = Field
type_synonym Phone = Field

definition Phone_init :: "string \<Rightarrow> error + Phone" where
  "Phone_init raw =
     (let sanitized_value =
            filter (\<lambda>c. isdigit c \<or> c \<in> {CHR ''+'', CHR ''-'', CHR ''('', CHR '')''}) raw
      in if length sanitized_value \<noteq> 10
         then Inl (ValueError ''Phone number must contain 10 digits.'')
         else Inr \<lparr>fvalue = sanitized_value\<rparr>)"

section \<open>Calendar dates\<close>

text \<open>
  \<open>datetime.date\<close> of the standard library: a proleptic Gregorian date with fields
  \<open>year\<close>, \<open>month\<close>, \<open>day\<close>, the year between 1 and 9999. The functions below follow
  the library's \<open>_is_leap\<close>, \<open>_days_before_year\<close>, \<open>_days_in_month\<close>, \<open>_days_before_month\<close>,
  \<open>_ymd2ord\<close> and \<open>_check_date_fields\<close>. The messages of the errors are those of CPython up
  to 3.13; no statement below depends on their wording.
\<close>

record date =
  year :: int
  month :: int
  day :: int

definition is_leap :: "int \<Rightarrow> bool" where
  "is_leap y = (y mod 4 = 0 \<and> (y mod 100 \<noteq> 0 \<or> y mod 400 = 0))"

definition days_before_year :: "int \<Rightarrow> int" where
  "days_before_year y = (y - 1) * 365 + (y - 1) div 4 - (y - 1) div 100 + (y - 1) div 400"

definition days_in_month :: "int \<Rightarrow> int \<Rightarrow> int" where
  "days_in_month y m =
     (if m = 2 then (if is_leap y then 29 else 28)
      else if m = 4 \<or> m = 6 \<or> m = 9 \<or> m = 11 then 30 else 31)"

definition days_before_month :: "int \<Rightarrow> int \<Rightarrow> int" where
  "days_before_month y m =
     (if m = 1 then 0 else if m = 2 then 31 else if m = 3 then 59 else if m = 4 then 90
      else if m = 5 then 120 else if m = 6 then 151 else if m = 7 then 181
      else if m = 8 then 212 else if m = 9 then 243 else if m = 10 then 273
      else if m = 11 then 304 else 334)
     + (if m > 2 \<and> is_leap y then 1 else 0)"

definition ymd2ord :: "int \<Rightarrow> int \<Rightarrow> int \<Rightarrow> int" where
  "ymd2ord y m d = days_before_year y + days_before_month y m + d"

definition toordinal :: "date \<Rightarrow> int" where
  "toordinal d = ymd2ord (year d) (month d) (day d)"

definition weekday :: "date \<Rightarrow> int" where
  \<comment> \<open>Monday is 0, Saturday 5, Sunday 6\<close>
  "weekday d = (toordinal d + 6) mod 7"

fun dec :: "nat \<Rightarrow> string" where
  "dec n = (if n < 10 then [char_of (48 + n)] else dec (n div 10) @ [char_of (48 + n mod 10)])"

definition str_int :: "int \<Rightarrow> string" where
  "str_int i = (if i < 0 then CHR ''-'' # dec (nat (- i)) else dec (nat i))"

definition date_init :: "int \<Rightarrow> int \<Rightarrow> int \<Rightarrow> error + date" where
  "date_init y m d =
     (if \<not> (1 \<le> y \<and> y \<le> 9999) then Inl (ValueError (''year '' @ str_int y @ '' is out of range''))
      else if \<not> (1 \<le> m \<and> m \<le> 12) then Inl (ValueError ''month must be in 1..12'')
      else if \<not> (1 \<le> d \<and> d \<le> days_in_month y m)
      then Inl (ValueError ''day is out of range for month'')
      else Inr \<lparr>year = y, month = m, day = d\<rparr>)"

definition valid_date :: "date \<Rightarrow> bool" where
  \<comment> \<open>the dates that exist: those the constructor accepts\<close>
  "valid_date d =
     (1 \<le> year d \<and> year d \<le> 9999 \<and> 1 \<le> month d \<and> month d \<le> 12
      \<and> 1 \<le> day d \<and> day d \<le> days_in_month (year d) (month d))"

definition replace_year :: "date \<Rightarrow> int \<Rightarrow> error + date" where
  \<comment> \<open>\<open>d.replace(year=y)\<close>: a new date built from \<open>y\<close> and the month and day of \<open>d\<close>\<close>
  "replace_year d y = date_init y (month d) (day d)"

definition date_lt :: "date \<Rightarrow> date \<Rightarrow> bool" where
  \<comment> \<open>\<open>a < b\<close>: the lexicographic order of \<open>(year, month, day)\<close>\<close>
  "date_lt a b =
     (year a < year b \<or> (year a = year b \<and>
        (month a < month b \<or> (month a = month b \<and> day a < day b))))"

definition add_one_day :: "date \<Rightarrow> error + date" where
  \<comment> \<open>\<open>d + timedelta(days=1)\<close>: the date of the next ordinal, \<open>OverflowError\<close> after
      31.12.9999\<close>
  "add_one_day d =
     (if year d = 9999 \<and> month d = 12 \<and> day d = 31 then Inl OverflowError
      else if day d < days_in_month (year d) (month d) then Inr (d\<lparr>day := day d + 1\<rparr>)
      else if month d < 12 then Inr \<lparr>year = year d, month = month d + 1, day = 1\<rparr>
      else Inr \<lparr>year = year d + 1, month = 1, day = 1\<rparr>)"

definition zfill :: "nat \<Rightarrow> string \<Rightarrow> string" where
  "zfill w s = replicate (w - length s) CHR ''0'' @ s"

definition strftime_dmY :: "date \<Rightarrow> string" where
  \<comment> \<open>\<open>d.strftime("%d.%m.%Y")\<close>, the year written with four digits\<close>
  "strftime_dmY d =
     zfill 2 (dec (nat (day d))) @ ''.'' @ zfill 2 (dec (nat (month d))) @ ''.''
       @ zfill 4 (dec (nat (year d)))"

subsection \<open>Parsing a date\<close>

text \<open>
  \<open>datetime.strptime(value, "%d.%m.%Y")\<close> matches the string against the regular expression
  the library builds from the format: \<open>%d\<close> is \<open>3[0-1]|[1-2]\d|0[1-9]|[1-9]| [1-9]\<close>, \<open>%m\<close> is
  \<open>1[0-2]|0[1-9]|[1-9]\<close>, \<open>%Y\<close> is \<open>\d\d\d\d\<close>, the dots are literal, and nothing may follow
  the year. No directive matches a dot, so the day is the text before the first dot and the
  month the text between the first two. The three numbers then go through the \<open>date\<close>
  constructor. Every failure is a \<open>ValueError\<close>.

  In the expressions \<open>\d\<close> is any decimal digit of Unicode, and \<open>int\<close> reads all of them. Among
  the characters of the model, those below U+0100, the decimal digits are \<open>0\<close>..\<open>9\<close> and no
  others, so \<open>\d\<close> is \<open>ascii_digit\<close> here. Strings with characters from U+0100 on, some of
  which \<open>strptime\<close> accepts as well (a day \<open>1\<close> followed by an Arabic-Indic zero is the
  tenth), are outside the model.
\<close>

definition in_range :: "char \<Rightarrow> char \<Rightarrow> char \<Rightarrow> bool" where
  "in_range lo hi c = ((of_char lo :: nat) \<le> of_char c \<and> (of_char c :: nat) \<le> of_char hi)"

definition re_d :: "string \<Rightarrow> bool" where
  "re_d s =
     (case s of
        [a] \<Rightarrow> in_range CHR ''1'' CHR ''9'' a
      | [a, b] \<Rightarrow>
          (a = CHR ''3'' \<and> in_range CHR ''0'' CHR ''1'' b)
          \<or> (in_range CHR ''1'' CHR ''2'' a \<and> ascii_digit b)
          \<or> (a = CHR ''0'' \<and> in_range CHR ''1'' CHR ''9'' b)
          \<or> (a = CHR '' '' \<and> in_range CHR ''1'' CHR ''9'' b)
      | _ \<Rightarrow> False)"

definition re_m :: "string \<Rightarrow> bool" where
  "re_m s =
     (case s of
        [a] \<Rightarrow> in_range CHR ''1'' CHR ''9'' a
      | [a, b] \<Rightarrow>
          (a = CHR ''1'' \<and> in_range CHR ''0'' CHR ''2'' b)
          \<or> (a = CHR ''0'' \<and> in_range CHR ''1'' CHR ''9'' b)
      | _ \<Rightarrow> False)"

definition re_Y :: "string \<Rightarrow> bool" where
  "re_Y s = (length s = 4 \<and> list_all ascii_digit s)"

definition py_int :: "string \<Rightarrow> int" where
  \<comment> \<open>\<open>int(s)\<close> for a matched group: leading blanks are skipped, the rest are decimal digits\<close>
  "py_int s =
     foldl (\<lambda>acc c. 10 * acc + (int (of_char c) - 48)) 0 (dropWhile (\<lambda>c. c = CHR '' '') s)"

definition strptime_dmY :: "string \<Rightarrow> error + date" where
  "strptime_dmY s =
     (let d = takeWhile (\<lambda>c. c \<noteq> CHR ''.'') s;
          r = drop (Suc (length d)) s;
          m = takeWhile (\<lambda>c. c \<noteq> CHR ''.'') r;
          Y = drop (Suc (length m)) r
      in if length d < length s \<and> length m < length r \<and> re_d d \<and> re_m m \<and> re_Y Y
         then date_init (py_int Y) (py_int m) (py_int d)
         else Inl (ValueError ''time data does not match format''))"

record Birthday = Field +
  date :: date

definition Birthday_init :: "string \<Rightarrow> error + Birthday" where
  "Birthday_init raw =
     (case strptime_dmY raw of
        Inl (ValueError msg) \<Rightarrow> Inl (ValueError ''Invalid date format. Use DD.MM.YYYY'')
      | Inl e \<Rightarrow> Inl e
      | Inr d \<Rightarrow> Inr \<lparr>fvalue = raw, date = d\<rparr>)"

subsection \<open>The accepted date strings, in words\<close>




section \<open>Record\<close>

record Record =
  name :: Name
  phones :: "Phone list"
  birthday :: "Birthday option"

definition Record_init :: "string \<Rightarrow> Record" where
  "Record_init nm = \<lparr>name = \<lparr>fvalue = nm\<rparr>, phones = [], birthday = None\<rparr>"

text \<open>
  The methods mutate the record in place; the model returns the record after the call. A
  method that raises has not touched the record by then, so an error stands for "raised,
  record as before".
\<close>

definition add_phone :: "Record \<Rightarrow> string \<Rightarrow> error + Record" where
  "add_phone r phone =
     (case Phone_init phone of
        Inl (ValueError msg) \<Rightarrow> Inl (ValueError (''Error adding phone: '' @ msg))
      | Inl e \<Rightarrow> Inl e
      | Inr p \<Rightarrow> Inr (r\<lparr>phones := phones r @ [p]\<rparr>))"

definition remove_phone :: "Record \<Rightarrow> string \<Rightarrow> error + Record" where
  \<comment> \<open>the loop returns at the first \<open>p\<close> whose value is \<open>phone\<close>, after \<open>self.phones.remove(p)\<close>\<close>
  "remove_phone r phone =
     (case find (\<lambda>p. fvalue p = phone) (phones r) of
        Some p \<Rightarrow> Inr (r\<lparr>phones := remove1 p (phones r)\<rparr>)
      | None \<Rightarrow> Inl (ValueError ''Phone number not found in record.''))"

fun edit_phone_loop :: "Phone list \<Rightarrow> string \<Rightarrow> string \<Rightarrow> error + Phone list" where
  "edit_phone_loop [] old_phone new_phone = Inl (ValueError ''Phone number not found in record.'')"
| "edit_phone_loop (p # ps) old_phone new_phone =
     (if fvalue p = old_phone
      then (case Phone_init new_phone of
              Inl (ValueError msg) \<Rightarrow> Inl (ValueError (''Error: '' @ msg))
            | Inl e \<Rightarrow> Inl e
            | Inr np \<Rightarrow> Inr (p\<lparr>fvalue := fvalue np\<rparr> # ps))
      else (case edit_phone_loop ps old_phone new_phone of
              Inl e \<Rightarrow> Inl e
            | Inr ps' \<Rightarrow> Inr (p # ps')))"

definition edit_phone :: "Record \<Rightarrow> string \<Rightarrow> string \<Rightarrow> error + Record" where
  "edit_phone r old_phone new_phone =
     (case edit_phone_loop (phones r) old_phone new_phone of
        Inl e \<Rightarrow> Inl e
      | Inr ps \<Rightarrow> Inr (r\<lparr>phones := ps\<rparr>))"

definition find_phone :: "Record \<Rightarrow> string \<Rightarrow> Phone option" where
  "find_phone r phone = find (\<lambda>p. fvalue p = phone) (phones r)"

definition Record_add_birthday :: "Record \<Rightarrow> string \<Rightarrow> error + Record" where
  "Record_add_birthday r raw =
     (case Birthday_init raw of
        Inl (ValueError msg) \<Rightarrow> Inl (ValueError (''Error adding birthday: '' @ msg))
      | Inl e \<Rightarrow> Inl e
      | Inr b \<Rightarrow> Inr (r\<lparr>birthday := Some b\<rparr>))"

definition Record_str :: "Record \<Rightarrow> string" where
  "Record_str r =
     ''Contact name: '' @ fvalue (name r) @ '', phones: ''
       @ join '', '' (map fvalue (phones r))
       @ '', birthday: '' @ (case birthday r of Some b \<Rightarrow> fvalue b | None \<Rightarrow> ''None'')"

subsection \<open>Upcoming birthdays\<close>

text \<open>
  The loop \<open>while next_birthday.weekday() >= 5: next_birthday += timedelta(days=1)\<close>. Not
  returning is the value \<open>None\<close>; \<open>roll_forward_returns\<close> below shows that it returns on
  every calendar date.
\<close>

partial_function (option) roll_forward :: "date \<Rightarrow> (error + date) option" where
  "roll_forward next_birthday =
     (if weekday next_birthday \<ge> 5
      then (case add_one_day next_birthday of
              Inl e \<Rightarrow> Some (Inl e)
            | Inr d \<Rightarrow> roll_forward d)
      else Some (Inr next_birthday))"

declare roll_forward.simps [code]

text \<open>One element of the result: the dict with the keys \<open>name\<close> and \<open>congratulation_date\<close>.\<close>

record upcoming =
  uname :: string
  congratulation_date :: string

text \<open>\<open>today\<close> is what \<open>datetime.today().date()\<close> returns when the method runs.\<close>

definition get_upcoming_birthdays :: "date \<Rightarrow> Record \<Rightarrow> (error + upcoming list) option" where
  "get_upcoming_birthdays today r =
     (case birthday r of
        None \<Rightarrow> Some (Inr [])
      | Some b \<Rightarrow>
          (case replace_year (date b) (year today) of
             Inl e \<Rightarrow> Some (Inl e)
           | Inr nb \<Rightarrow>
               (case (if date_lt nb today then replace_year nb (year today + 1) else Inr nb) of
                  Inl e \<Rightarrow> Some (Inl e)
                | Inr nb' \<Rightarrow>
                    (case roll_forward nb' of
                       None \<Rightarrow> None
                     | Some (Inl e) \<Rightarrow> Some (Inl e)
                     | Some (Inr next_birthday) \<Rightarrow>
                         (let days_until_birthday = toordinal next_birthday - toordinal today
                          in Some (Inr (if 0 \<le> days_until_birthday \<and> days_until_birthday \<le> 7
                                        then [\<lparr>uname = fvalue (name r),
                                               congratulation_date = strftime_dmY next_birthday\<rparr>]
                                        else [])))))))"

section \<open>AddressBook\<close>

text \<open>
  The book is a dict from names to records, which keeps the order of insertion: an
  association list with one pair for each key. Assigning to a key that is present replaces
  the record where it stands; a new key goes to the end.
\<close>

type_synonym AddressBook = "(string \<times> Record) list"

definition add_record :: "AddressBook \<Rightarrow> Record \<Rightarrow> AddressBook" where
  "add_record book record = AList.update (fvalue (name record)) record book"

definition find_record :: "AddressBook \<Rightarrow> string \<Rightarrow> Record option" where
  "find_record book nm = map_of book nm"

definition delete_record :: "AddressBook \<Rightarrow> string \<Rightarrow> AddressBook \<times> string" where
  \<comment> \<open>the book after the call and the line printed\<close>
  "delete_record book nm =
     (if nm \<in> fst ` set book
      then (AList.delete nm book, ''Record removed successfully.'')
      else (book, ''Record not found.''))"

section \<open>Command handlers\<close>

text \<open>
  A handler takes the argument list and the book and returns a string; what it has done to
  the book by the time it returns or raises stays done, so the model returns the book next
  to the result. A record found in the book is the object stored there: a change made to it
  is a change of the book at the key it was found under.

  The decorator \<open>input_error\<close> turns a \<open>KeyError\<close>, a \<open>ValueError\<close> and an \<open>IndexError\<close> into the
  returned string and lets any other exception through.
\<close>

definition input_error :: "(error + string) \<times> AddressBook \<Rightarrow> (error + string) \<times> AddressBook" where
  "input_error res =
     (case res of
        (Inr s, book) \<Rightarrow> (Inr s, book)
      | (Inl KeyError, book) \<Rightarrow> (Inr ''KeyError'', book)
      | (Inl (ValueError msg), book) \<Rightarrow> (Inr (''ValueError: '' @ msg), book)
      | (Inl IndexError, book) \<Rightarrow> (Inr ''IndexError'', book)
      | (Inl e, book) \<Rightarrow> (Inl e, book))"

definition add_birthday_body :: "string list \<Rightarrow> AddressBook \<Rightarrow> (error + string) \<times> AddressBook" where
  "add_birthday_body args book =
     (if length args < 2
      then (Inr ''Not enough arguments. Please provide both name and birthday (DD.MM.YYYY).'', book)
      else (case args of
          [nm, bd] \<Rightarrow>
            (case find_record book nm of
               Some record \<Rightarrow>
                 (case birthday record of
                    Some b \<Rightarrow> (Inr (''Birthday already exists for '' @ nm @ ''.''), book)
                  | None \<Rightarrow>
                      (case Record_add_birthday record bd of
                         Inr record' \<Rightarrow>
                           (Inr (''Birthday added successfully for '' @ nm @ ''.''),
                            AList.update nm record' book)
                       | Inl (ValueError msg) \<Rightarrow> (Inr (''Error adding birthday: '' @ msg), book)
                       | Inl e \<Rightarrow> (Inl e, book)))
             | None \<Rightarrow> (Inr ''Record not found.'', book))
        | _ \<Rightarrow> (Inl (ValueError ''too many values to unpack (expected 2)''), book)))"

definition add_birthday :: "string list \<Rightarrow> AddressBook \<Rightarrow> (error + string) \<times> AddressBook" where
  "add_birthday args book = input_error (add_birthday_body args book)"

definition show_birthday_body :: "string list \<Rightarrow> AddressBook \<Rightarrow> (error + string) \<times> AddressBook" where
  "show_birthday_body args book =
     (case args of
        [] \<Rightarrow> (Inl IndexError, book)
      | nm # _ \<Rightarrow>
          (case find_record book nm of
             Some record \<Rightarrow>
               (case birthday record of
                  Some b \<Rightarrow> (Inr (nm @ [CHR 0x27] @ ''s birthday: '' @ fvalue b), book)
                | None \<Rightarrow> (Inr (nm @ '' has no birthday information.''), book))
           | None \<Rightarrow> (Inr ''Record not found.'', book)))"

definition show_birthday :: "string list \<Rightarrow> AddressBook \<Rightarrow> (error + string) \<times> AddressBook" where
  "show_birthday args book = input_error (show_birthday_body args book)"

fun birthdays_loop :: "date \<Rightarrow> Record list \<Rightarrow> (error + upcoming list) option" where
  "birthdays_loop today [] = Some (Inr [])"
| "birthdays_loop today (record # records) =
     (case birthday record of
        None \<Rightarrow> birthdays_loop today records
      | Some b \<Rightarrow>
          (case get_upcoming_birthdays today record of
             None \<Rightarrow> None
           | Some (Inl e) \<Rightarrow> Some (Inl e)
           | Some (Inr us) \<Rightarrow>
               (case birthdays_loop today records of
                  None \<Rightarrow> None
                | Some (Inl e) \<Rightarrow> Some (Inl e)
                | Some (Inr rest) \<Rightarrow> Some (Inr (us @ rest)))))"

definition birthdays_body ::
  "date \<Rightarrow> string list \<Rightarrow> AddressBook \<Rightarrow> ((error + string) \<times> AddressBook) option" where
  "birthdays_body today args book =
     (case birthdays_loop today (map snd book) of
        None \<Rightarrow> None
      | Some (Inl e) \<Rightarrow> Some (Inl e, book)
      | Some (Inr upcoming_birthdays) \<Rightarrow>
          (let upcoming_birthday_names =
                 map (\<lambda>user. uname user @ '' - '' @ congratulation_date user) upcoming_birthdays
           in if upcoming_birthday_names \<noteq> []
              then Some (Inr (''Upcoming birthdays:'' @ [CHR 0x0A]
                              @ join [CHR 0x0A] upcoming_birthday_names), book)
              else Some (Inr ''No upcoming birthdays in the next 7 days.'', book)))"

definition birthdays ::
  "date \<Rightarrow> string list \<Rightarrow> AddressBook \<Rightarrow> ((error + string) \<times> AddressBook) option" where
  "birthdays today args book = map_option input_error (birthdays_body today args book)"

definition add_contact_body :: "string list \<Rightarrow> AddressBook \<Rightarrow> (error + string) \<times> AddressBook" where
  "add_contact_body args book =
     (if length args < 2
      then (Inr ''Not enough arguments. Please provide both name and phone number.'', book)
      else (case args of
          nm # phone # rest \<Rightarrow>
            (let (record, book', message) =
                   (case find_record book nm of
                      None \<Rightarrow> (Record_init nm, add_record book (Record_init nm), ''Contact added.'')
                    | Some r \<Rightarrow> (r, book, ''Contact updated.''))
             in if phone \<noteq> []
                then (case add_phone record phone of
                        Inl e \<Rightarrow> (Inl e, book')
                      | Inr record' \<Rightarrow> (Inr message, AList.update nm record' book'))
                else (Inr message, book'))
        | _ \<Rightarrow> (Inl (ValueError ''not enough values to unpack (expected at least 2)''), book)))"

definition add_contact :: "string list \<Rightarrow> AddressBook \<Rightarrow> (error + string) \<times> AddressBook" where
  "add_contact args book = input_error (add_contact_body args book)"

definition change_contact_body :: "string list \<Rightarrow> AddressBook \<Rightarrow> (error + string) \<times> AddressBook" where
  "change_contact_body args book =
     (if length args < 2
      then (Inr ''Not enough arguments. Please provide both name and new phone number.'', book)
      else (case args of
          [nm, new_phone] \<Rightarrow>
            (case find_record book nm of
               Some record \<Rightarrow>
                 (case phones record of
                    [] \<Rightarrow> (Inl IndexError, book)
                  | p # ps \<Rightarrow>
                      (case edit_phone record (fvalue p) new_phone of
                         Inr record' \<Rightarrow>
                           (Inr (''Phone number updated for '' @ nm @ ''.''),
                            AList.update nm record' book)
                       | Inl (ValueError msg) \<Rightarrow> (Inr (''Error: '' @ msg), book)
                       | Inl e \<Rightarrow> (Inl e, book)))
             | None \<Rightarrow> (Inr ''Record not found.'', book))
        | _ \<Rightarrow> (Inl (ValueError ''too many values to unpack (expected 2)''), book)))"

definition change_contact :: "string list \<Rightarrow> AddressBook \<Rightarrow> (error + string) \<times> AddressBook" where
  "change_contact args book = input_error (change_contact_body args book)"

definition show_phones_body :: "string list \<Rightarrow> AddressBook \<Rightarrow> (error + string) \<times> AddressBook" where
  "show_phones_body args book =
     (case args of
        [] \<Rightarrow> (Inr ''Not enough arguments. Please provide a name.'', book)
      | nm # _ \<Rightarrow>
          (case find_record book nm of
             Some record \<Rightarrow>
               (Inr (''Phones for '' @ nm @ '': '' @ join '', '' (map fvalue (phones record))), book)
           | None \<Rightarrow> (Inr (''Record for '' @ nm @ '' not found.''), book)))"

definition show_phones :: "string list \<Rightarrow> AddressBook \<Rightarrow> (error + string) \<times> AddressBook" where
  "show_phones args book = input_error (show_phones_body args book)"

definition show_all_body :: "AddressBook \<Rightarrow> (error + string) \<times> AddressBook" where
  "show_all_body book =
     (if book \<noteq> []
      then (Inr (join [CHR 0x0A] (map (\<lambda>(nm, record). nm @ '': '' @ Record_str record) book)), book)
      else (Inr ''Address book is empty.'', book))"

definition show_all :: "AddressBook \<Rightarrow> (error + string) \<times> AddressBook" where
  "show_all book = input_error (show_all_body book)"

section \<open>The command loop\<close>

definition isspace :: "char \<Rightarrow> bool" where
  \<comment> \<open>\<open>str.isspace\<close> on one character below U+0100\<close>
  "isspace c = ((of_char c :: nat) \<in> {9, 10, 11, 12, 13, 28, 29, 30, 31, 32, 133, 160})"

fun split_words :: "string \<Rightarrow> string \<Rightarrow> string list" where
  \<comment> \<open>\<open>str.split()\<close>: the maximal runs of characters that are not white space; the second
      argument is the run being read\<close>
  "split_words [] w = (if w = [] then [] else [w])"
| "split_words (c # cs) w =
     (if isspace c then (if w = [] then split_words cs [] else w # split_words cs [])
      else split_words cs (w @ [c]))"

definition parse_input :: "string \<Rightarrow> string list" where
  "parse_input user_input = (if user_input \<noteq> [] then split_words user_input [] else [])"

text \<open>
  One turn of the loop of \<open>main\<close>, after \<open>input\<close> has returned \<open>user_input\<close>: the lines printed
  and the book, and whether the loop goes on, has saved the book and left, or has been left
  by an exception that nothing catches.
\<close>

datatype outcome =
    Continue "string list" AddressBook
  | Closed "string list" AddressBook
  | Raised error "string list" AddressBook

definition print_result :: "(error + string) \<times> AddressBook \<Rightarrow> outcome" where
  "print_result res =
     (case res of
        (Inr s, book) \<Rightarrow> Continue [s] book
      | (Inl e, book) \<Rightarrow> Raised e [] book)"

definition main_step :: "date \<Rightarrow> AddressBook \<Rightarrow> string \<Rightarrow> outcome option" where
  "main_step today book user_input =
     (case parse_input user_input of
        [] \<Rightarrow> Some (Raised (ValueError ''not enough values to unpack (expected at least 1, got 0)'')
                      [] book)
      | command # args \<Rightarrow>
          (if command \<in> set [''close'', ''exit''] then Some (Closed [''Good bye!''] book)
           else if command = ''hello'' then Some (Continue [''How can I help you?''] book)
           else if command = ''add'' then Some (print_result (add_contact args book))
           else if command = ''change'' then Some (print_result (change_contact args book))
           else if command = ''phone'' then Some (print_result (show_phones args book))
           else if command = ''all'' then Some (print_result (show_all book))
           else if command = ''add_birthday'' then Some (print_result (add_birthday args book))
           else if command = ''show_birthday'' then Some (print_result (show_birthday args book))
           else if command = ''birthdays'' then map_option print_result (birthdays today args book)
           else Some (Continue [''Invalid command.''] book)))"

fun printed_before :: "string list \<Rightarrow> outcome \<Rightarrow> outcome" where
  "printed_before out (Continue out' book) = Continue (out @ out') book"
| "printed_before out (Closed out' book) = Closed (out @ out') book"
| "printed_before out (Raised e out' book) = Raised e (out @ out') book"

text \<open>
  The loop \<open>while True\<close> of \<open>main\<close> on the lines that \<open>input\<close> returns, one after the other;
  \<open>input\<close> raises \<open>EOFError\<close> when there is none left. \<open>main\<close> runs it on the book that
  \<open>load_data\<close> returned.
\<close>

fun main_loop :: "date \<Rightarrow> AddressBook \<Rightarrow> string list \<Rightarrow> outcome option" where
  "main_loop today book [] = Some (Raised EOFError [] book)"
| "main_loop today book (user_input # inputs) =
     (case main_step today book user_input of
        None \<Rightarrow> None
      | Some (Continue out book') \<Rightarrow> map_option (printed_before out) (main_loop today book' inputs)
      | Some (Closed out book') \<Rightarrow> Some (Closed out book')
      | Some (Raised e out book') \<Rightarrow> Some (Raised e out book'))"

section \<open>Theorems\<close>

text \<open>
  C4. Constructing a phone from a raw string removes every character that is neither a
  digit nor one of \<open>+ - ( )\<close>; it succeeds if and only if the string that is left has
  length 10, the stored value is then that string and not the raw one, and otherwise it
  raises the \<open>ValueError\<close> "Phone number must contain 10 digits.".
\<close>

theorem Phone_init_contract:
  "((\<exists>p. Phone_init raw = Inr p) \<longleftrightarrow>
      length (filter (\<lambda>c. \<not> (\<not> isdigit c \<and> c \<notin> set ''+-()'')) raw) = 10)
   \<and> (\<forall>p. Phone_init raw = Inr p \<longrightarrow>
          fvalue p = filter (\<lambda>c. \<not> (\<not> isdigit c \<and> c \<notin> set ''+-()'')) raw)
   \<and> ((\<forall>p. Phone_init raw \<noteq> Inr p) \<longrightarrow>
          Phone_init raw = Inl (ValueError ''Phone number must contain 10 digits.''))"
  by (simp add: Phone_init_def Let_def)

theorem Phone_init_contract_witness:
  "(\<exists>p. Phone_init ''050 123 45 67'' = Inr p)
   \<and> Phone_init ''050 123 45 67'' = Inr \<lparr>fvalue = ''0501234567''\<rparr>
   \<and> Phone_init ''(050)123-45-67'' = Inl (ValueError ''Phone number must contain 10 digits.'')"
proof -
  have a: "Phone_init ''050 123 45 67'' = Inr \<lparr>fvalue = ''0501234567''\<rparr>"
    by (simp add: Phone_init_def isdigit_def ascii_digit_def)
  have b: "\<forall>p. Phone_init ''(050)123-45-67'' \<noteq> Inr p"
    by (simp add: Phone_init_def isdigit_def ascii_digit_def)
  from b Phone_init_contract [of "''(050)123-45-67''"]
  have "Phone_init ''(050)123-45-67'' = Inl (ValueError ''Phone number must contain 10 digits.'')"
    by blast
  with a show ?thesis by simp
qed

subsection \<open>Phones of a record\<close>

lemma field_update_eq: "(p :: Field)\<lparr>fvalue := fvalue np\<rparr> = np"
  by simp

lemma Phone_init_error:
  "Phone_init raw = Inl e \<Longrightarrow> e = ValueError ''Phone number must contain 10 digits.''"
  by (simp add: Phone_init_def Let_def split: if_splits)

lemma edit_phone_loop_first:
  "v \<in> fvalue ` set ps \<Longrightarrow> Phone_init new = Inr np \<Longrightarrow>
   edit_phone_loop ps v new = Inr (ps[length (takeWhile (\<lambda>p. fvalue p \<noteq> v) ps) := np])"
  by (induction ps) auto

lemma find_first:
  "v \<in> fvalue ` set ps \<Longrightarrow>
   find (\<lambda>p. fvalue p = v) ps = Some (ps ! length (takeWhile (\<lambda>p. fvalue p \<noteq> v) ps))"
  by (induction ps) auto

lemma first_index:
  "v \<in> fvalue ` set ps \<Longrightarrow> i = length (takeWhile (\<lambda>p. fvalue p \<noteq> v) ps) \<Longrightarrow>
   i < length ps \<and> fvalue (ps ! i) = v \<and> (\<forall>j<i. fvalue (ps ! j) \<noteq> v)"
proof -
  assume a: "v \<in> fvalue ` set ps" and i: "i = length (takeWhile (\<lambda>p. fvalue p \<noteq> v) ps)"
  from a have lt: "i < length ps" unfolding i
    by (induction ps) auto
  have at: "fvalue (ps ! i) = v"
    using nth_length_takeWhile [of "\<lambda>p. fvalue p \<noteq> v" ps] lt unfolding i by auto
  have before: "\<forall>j<i. fvalue (ps ! j) \<noteq> v"
  proof (intro allI impI)
    fix j assume "j < i"
    then have "j < length (takeWhile (\<lambda>p. fvalue p \<noteq> v) ps)" by (simp add: i)
    then have lt': "j < length (takeWhile (\<lambda>p. fvalue p \<noteq> v) ps)" .
    have "takeWhile (\<lambda>p. fvalue p \<noteq> v) ps ! j \<in> set (takeWhile (\<lambda>p. fvalue p \<noteq> v) ps)"
      by (rule nth_mem [OF lt'])
    then have "fvalue (takeWhile (\<lambda>p. fvalue p \<noteq> v) ps ! j) \<noteq> v"
      by (rule set_takeWhileD [THEN conjunct2])
    with takeWhile_nth [OF lt'] show "fvalue (ps ! j) \<noteq> v" by simp
  qed
  from lt at before show ?thesis by blast
qed

lemma remove1_first:
  "v \<in> fvalue ` set ps \<Longrightarrow> i = length (takeWhile (\<lambda>p. fvalue p \<noteq> v) ps) \<Longrightarrow>
   remove1 (ps ! i) ps = take i ps @ drop (Suc i) ps"
proof (induction ps arbitrary: i)
  case Nil
  then show ?case by simp
next
  case (Cons p ps)
  show ?case
  proof (cases "fvalue p = v")
    case True
    with Cons.prems show ?thesis by simp
  next
    case False
    with Cons.prems have mem: "v \<in> fvalue ` set ps" by auto
    define k where "k = length (takeWhile (\<lambda>p. fvalue p \<noteq> v) ps)"
    from first_index [OF mem k_def] have "fvalue (ps ! k) = v" by simp
    with False have ne: "p \<noteq> ps ! k" by auto
    from False Cons.prems have i: "i = Suc k" by (simp add: k_def)
    from Cons.IH [OF mem k_def] ne show ?thesis by (simp add: i)
  qed
qed

text \<open>
  C6. When the phone list of a record holds a phone equal to \<open>v\<close> (once or several times)
  and \<open>i\<close> is the index of the first one, \<open>edit_phone\<close> with a valid new number changes
  the phone at \<open>i\<close> and nothing else: the list keeps its length and every other phone,
  later phones equal to \<open>v\<close> among them; \<open>remove_phone\<close> takes out the phone at \<open>i\<close>
  and leaves every other phone, in order.
\<close>

theorem first_match_only:
  assumes "v \<in> fvalue ` set (phones r)"
    and "Phone_init new = Inr np"
    and "i = length (takeWhile (\<lambda>p. fvalue p \<noteq> v) (phones r))"
  shows "i < length (phones r) \<and> fvalue (phones r ! i) = v \<and> (\<forall>j<i. fvalue (phones r ! j) \<noteq> v)
    \<and> edit_phone r v new = Inr (r\<lparr>phones := (phones r)[i := np]\<rparr>)
    \<and> length ((phones r)[i := np]) = length (phones r)
    \<and> (\<forall>j<length (phones r). j \<noteq> i \<longrightarrow> (phones r)[i := np] ! j = phones r ! j)
    \<and> remove_phone r v = Inr (r\<lparr>phones := take i (phones r) @ drop (Suc i) (phones r)\<rparr>)"
proof -
  have e: "edit_phone r v new = Inr (r\<lparr>phones := (phones r)[i := np]\<rparr>)"
    using edit_phone_loop_first [OF assms(1,2)] assms(3) by (simp add: edit_phone_def)
  have rm: "remove_phone r v = Inr (r\<lparr>phones := take i (phones r) @ drop (Suc i) (phones r)\<rparr>)"
    using find_first [OF assms(1)] remove1_first [OF assms(1,3)] assms(3)
    by (simp add: remove_phone_def)
  from first_index [OF assms(1,3)] e rm show ?thesis by simp
qed

theorem first_match_only_witness:
  "edit_phone \<lparr>name = \<lparr>fvalue = ''Bob''\<rparr>,
       phones = [\<lparr>fvalue = ''2222222222''\<rparr>, \<lparr>fvalue = ''1111111111''\<rparr>, \<lparr>fvalue = ''1111111111''\<rparr>],
       birthday = None\<rparr> ''1111111111'' ''3333333333''
     = Inr \<lparr>name = \<lparr>fvalue = ''Bob''\<rparr>,
       phones = [\<lparr>fvalue = ''2222222222''\<rparr>, \<lparr>fvalue = ''3333333333''\<rparr>, \<lparr>fvalue = ''1111111111''\<rparr>],
       birthday = None\<rparr>
   \<and> remove_phone \<lparr>name = \<lparr>fvalue = ''Bob''\<rparr>,
       phones = [\<lparr>fvalue = ''2222222222''\<rparr>, \<lparr>fvalue = ''1111111111''\<rparr>, \<lparr>fvalue = ''1111111111''\<rparr>],
       birthday = None\<rparr> ''1111111111''
     = Inr \<lparr>name = \<lparr>fvalue = ''Bob''\<rparr>,
       phones = [\<lparr>fvalue = ''2222222222''\<rparr>, \<lparr>fvalue = ''1111111111''\<rparr>],
       birthday = None\<rparr>"
proof -
  have ok: "Phone_init ''3333333333'' = Inr \<lparr>fvalue = ''3333333333''\<rparr>"
    by (simp add: Phone_init_def isdigit_def ascii_digit_def)
  show ?thesis
    using first_match_only [of "''1111111111''"
      "\<lparr>name = \<lparr>fvalue = ''Bob''\<rparr>,
       phones = [\<lparr>fvalue = ''2222222222''\<rparr>, \<lparr>fvalue = ''1111111111''\<rparr>, \<lparr>fvalue = ''1111111111''\<rparr>],
       birthday = None\<rparr>" "''3333333333''" "\<lparr>fvalue = ''3333333333''\<rparr>" 1, OF _ ok]
    by simp
qed

text \<open>
  C3. A phone that has been constructed is a string of exactly ten digits. The constructor
  does not establish this: it keeps the characters \<open>+ - ( )\<close> and counts them, so
  \<open>050-123-45\<close> is accepted and stored with eight digits, and \<open>(050)123-45-67\<close>, which has
  ten digits, is refused with "Phone number must contain 10 digits.".
\<close>

theorem Phone_init_keeps_punctuation:
  "Phone_init ''050-123-45'' = Inr \<lparr>fvalue = ''050-123-45''\<rparr>
   \<and> length (filter isdigit ''050-123-45'') = 8
   \<and> length (filter isdigit ''(050)123-45-67'') = 10
   \<and> Phone_init ''(050)123-45-67'' = Inl (ValueError ''Phone number must contain 10 digits.'')"
  by (simp add: Phone_init_def isdigit_def ascii_digit_def)

subsection \<open>The address book\<close>

lemma update_absent: "map_of book k = None \<Longrightarrow> AList.update k v book = book @ [(k, v)]"
  by (induction book) (auto split: if_splits)

lemma delete_absent: "k \<notin> fst ` set book \<Longrightarrow> AList.delete k book = book"
  by (induction book) auto

lemma delete_present:
  "distinct (map fst book) \<Longrightarrow> k \<in> fst ` set book \<Longrightarrow>
   \<exists>xs r ys. book = xs @ (k, r) # ys \<and> AList.delete k book = xs @ ys \<and> k \<notin> fst ` set (xs @ ys)"
proof (induction book)
  case Nil
  then show ?case by simp
next
  case (Cons p book)
  obtain k' r' where p: "p = (k', r')" by (cases p)
  show ?case
  proof (cases "k' = k")
    case True
    with Cons.prems p have notin: "k \<notin> fst ` set book" by auto
    have "p # book = [] @ (k, r') # book" using True p by simp
    moreover have "AList.delete k (p # book) = [] @ book"
      using True p delete_absent [OF notin] by simp
    moreover have "k \<notin> fst ` set ([] @ book)" using notin by simp
    ultimately show ?thesis by blast
  next
    case False
    with Cons.prems p have "distinct (map fst book)" "k \<in> fst ` set book" by auto
    from Cons.IH [OF this] obtain xs r ys where
      x: "book = xs @ (k, r) # ys" "AList.delete k book = xs @ ys" "k \<notin> fst ` set (xs @ ys)" by blast
    have "p # book = (p # xs) @ (k, r) # ys" using x(1) by simp
    moreover have "AList.delete k (p # book) = (p # xs) @ ys" using x(2) False p by simp
    moreover have "k \<notin> fst ` set ((p # xs) @ ys)" using x(3) False p by simp
    ultimately show ?thesis by blast
  qed
qed

text \<open>
  C9. \<open>delete_record\<close> returns in every case. For a name that is not a key of the book
  it prints "Record not found." and the book is what it was. For a name that is a key (the
  keys of a dict are distinct) it takes out the one entry of that name, leaves every other
  entry where it was, and prints "Record removed successfully.".
\<close>

theorem delete_record_contract:
  "(nm \<notin> fst ` set book \<longrightarrow> delete_record book nm = (book, ''Record not found.''))
   \<and> (nm \<in> fst ` set book \<and> distinct (map fst book) \<longrightarrow>
        (\<exists>xs r ys. book = xs @ (nm, r) # ys \<and> nm \<notin> fst ` set (xs @ ys)
           \<and> delete_record book nm = (xs @ ys, ''Record removed successfully.'')))"
proof (intro conjI impI)
  assume "nm \<notin> fst ` set book"
  then show "delete_record book nm = (book, ''Record not found.'')"
    by (simp add: delete_record_def)
next
  assume a: "nm \<in> fst ` set book \<and> distinct (map fst book)"
  then have "distinct (map fst book)" "nm \<in> fst ` set book" by simp_all
  from delete_present [OF this] obtain xs r ys where
    x: "book = xs @ (nm, r) # ys" "AList.delete nm book = xs @ ys" "nm \<notin> fst ` set (xs @ ys)"
    by blast
  from a x(2) have "delete_record book nm = (xs @ ys, ''Record removed successfully.'')"
    unfolding delete_record_def by simp
  with x(1,3) show "\<exists>xs r ys. book = xs @ (nm, r) # ys \<and> nm \<notin> fst ` set (xs @ ys)
           \<and> delete_record book nm = (xs @ ys, ''Record removed successfully.'')"
    by blast
qed

theorem delete_record_contract_witness:
  "delete_record [(''Ann'', Record_init ''Ann''), (''Bob'', Record_init ''Bob'')] ''Eve''
     = ([(''Ann'', Record_init ''Ann''), (''Bob'', Record_init ''Bob'')], ''Record not found.'')
   \<and> delete_record [(''Ann'', Record_init ''Ann''), (''Bob'', Record_init ''Bob'')] ''Ann''
     = ([(''Bob'', Record_init ''Bob'')], ''Record removed successfully.'')"
proof -
  let ?book = "[(''Ann'', Record_init ''Ann''), (''Bob'', Record_init ''Bob'')]"
  have a: "delete_record ?book ''Eve'' = (?book, ''Record not found.'')"
    using delete_record_contract [of "''Eve''" ?book] by simp
  have "''Ann'' \<in> fst ` set ?book \<and> distinct (map fst ?book)" by simp
  with delete_record_contract [of "''Ann''" ?book]
  obtain xs r ys where x: "?book = xs @ (''Ann'', r) # ys" "''Ann'' \<notin> fst ` set (xs @ ys)"
    "delete_record ?book ''Ann'' = (xs @ ys, ''Record removed successfully.'')"
    by blast
  from x(1,2) have xs: "xs = []" by (cases xs) auto
  with x(1) have "ys = [(''Bob'', Record_init ''Bob'')]" by simp
  with xs x(3) a show ?thesis by simp
qed

subsection \<open>The handlers\<close>

text \<open>
  The words that \<open>main\<close> passes to a handler come from \<open>str.split\<close>, so none of them is
  empty.
\<close>

lemma split_words_nonempty: "[] \<notin> set (split_words s w)"
  by (induction s arbitrary: w) auto

lemma parse_input_nonempty: "[] \<notin> set (parse_input user_input)"
  by (simp add: parse_input_def split_words_nonempty)

lemma add_contact_invalid_phone:
  assumes "find_record book nm = None" and "phone \<noteq> []" and "Phone_init phone = Inl e"
  shows "add_contact (nm # phone # rest) book
         = (Inr ''ValueError: Error adding phone: Phone number must contain 10 digits.'',
            book @ [(nm, \<lparr>name = \<lparr>fvalue = nm\<rparr>, phones = [], birthday = None\<rparr>)])"
proof -
  from assms(3) have e: "e = ValueError ''Phone number must contain 10 digits.''"
    by (rule Phone_init_error)
  from assms(1) have up: "add_record book (Record_init nm) = book @ [(nm, Record_init nm)]"
    by (simp add: add_record_def find_record_def update_absent Record_init_def)
  have ap: "add_phone (Record_init nm) phone
            = Inl (ValueError ''Error adding phone: Phone number must contain 10 digits.'')"
    using assms(3) e by (simp add: add_phone_def)
  have "add_contact_body (nm # phone # rest) book
        = (Inl (ValueError ''Error adding phone: Phone number must contain 10 digits.''),
           book @ [(nm, Record_init nm)])"
    using assms(1,2) by (simp add: add_contact_body_def up ap)
  then show ?thesis
    by (simp add: add_contact_def input_error_def Record_init_def)
qed

text \<open>
  C10. When the loop calls \<open>add_contact\<close> (the line read is \<open>add\<close>, a name, a phone and
  possibly more words) with a name that is not in the book and a phone string that does not
  pass validation, the handler returns the error string "ValueError: Error adding phone:
  Phone number must contain 10 digits.", which the loop prints before it goes on, and the
  book has changed all the same: a record of that name with no phones and no birthday is
  in it, at its end, because the record is inserted before the phone is validated.
\<close>

theorem add_contact_not_atomic:
  assumes "parse_input user_input = ''add'' # nm # phone # rest"
    and "find_record book nm = None"
    and "Phone_init phone = Inl e"
  shows "add_contact (nm # phone # rest) book
           = (Inr ''ValueError: Error adding phone: Phone number must contain 10 digits.'',
              book @ [(nm, \<lparr>name = \<lparr>fvalue = nm\<rparr>, phones = [], birthday = None\<rparr>)])
    \<and> find_record (book @ [(nm, \<lparr>name = \<lparr>fvalue = nm\<rparr>, phones = [], birthday = None\<rparr>)]) nm
           = Some \<lparr>name = \<lparr>fvalue = nm\<rparr>, phones = [], birthday = None\<rparr>
    \<and> main_step today book user_input
           = Some (Continue
               [''ValueError: Error adding phone: Phone number must contain 10 digits.'']
               (book @ [(nm, \<lparr>name = \<lparr>fvalue = nm\<rparr>, phones = [], birthday = None\<rparr>)]))"
proof -
  from parse_input_nonempty [of user_input] assms(1) have ne: "phone \<noteq> []" by auto
  note h = add_contact_invalid_phone [OF assms(2) ne assms(3), of rest]
  from assms(2) have f: "find_record (book @ [(nm, \<lparr>name = \<lparr>fvalue = nm\<rparr>, phones = [], birthday = None\<rparr>)]) nm
           = Some \<lparr>name = \<lparr>fvalue = nm\<rparr>, phones = [], birthday = None\<rparr>"
    by (simp add: find_record_def map_add_def)
  have "main_step today book user_input = Some (print_result (add_contact (nm # phone # rest) book))"
    by (simp add: main_step_def assms(1))
  with h f show ?thesis by (simp add: print_result_def)
qed

theorem add_contact_not_atomic_witness:
  "add_contact [''Bob'', ''12345''] [(''Ann'', Record_init ''Ann'')]
   = (Inr ''ValueError: Error adding phone: Phone number must contain 10 digits.'',
      [(''Ann'', Record_init ''Ann''),
       (''Bob'', \<lparr>name = \<lparr>fvalue = ''Bob''\<rparr>, phones = [], birthday = None\<rparr>)])
   \<and> main_step \<lparr>year = 2024, month = 1, day = 1\<rparr> [(''Ann'', Record_init ''Ann'')] ''add Bob 12345''
   = Some (Continue [''ValueError: Error adding phone: Phone number must contain 10 digits.'']
      [(''Ann'', Record_init ''Ann''),
       (''Bob'', \<lparr>name = \<lparr>fvalue = ''Bob''\<rparr>, phones = [], birthday = None\<rparr>)])"
proof -
  have p: "parse_input ''add Bob 12345'' = ''add'' # ''Bob'' # ''12345'' # []"
    by (simp add: parse_input_def isspace_def)
  have a: "find_record [(''Ann'', Record_init ''Ann'')] ''Bob'' = None"
    by (simp add: find_record_def)
  have c: "Phone_init ''12345'' = Inl (ValueError ''Phone number must contain 10 digits.'')"
    by (simp add: Phone_init_def isdigit_def ascii_digit_def)
  from add_contact_not_atomic [OF p a c, of "\<lparr>year = 2024, month = 1, day = 1\<rparr>"]
  show ?thesis by simp
qed

subsection \<open>The calendar\<close>

lemma div_step:
  assumes "0 < (k::int)"
  shows "y div k = (y - 1) div k + (if y mod k = 0 then 1 else 0)"
proof -
  define q where "q = (y - 1) div k"
  define r where "r = (y - 1) mod k"
  have y: "y = k * q + (r + 1)"
    unfolding q_def r_def by (simp add: algebra_simps)
  have r: "0 \<le> r" "r < k" using assms by (simp_all add: r_def)
  show ?thesis
  proof (cases "r + 1 = k")
    case True
    with y have y': "y = k * (q + 1) + 0" by (simp add: algebra_simps)
    from assms have "y div k = q + 1" by (intro int_div_pos_eq [OF y']) simp_all
    moreover from assms have "y mod k = 0" by (intro int_mod_pos_eq [OF y']) simp_all
    ultimately show ?thesis by (simp add: q_def)
  next
    case False
    with r have lt: "r + 1 < k" by simp
    from r have "y div k = q" by (intro int_div_pos_eq [OF y] lt) simp
    moreover from r have "y mod k = r + 1" by (intro int_mod_pos_eq [OF y] lt) simp
    ultimately show ?thesis using r by (simp add: q_def)
  qed
qed

lemma days_before_year_step:
  "days_before_year (y + 1) = days_before_year y + (if is_leap y then 366 else 365)"
proof -
  define p4 where "p4 = (y - 1) div 4"
  define p100 where "p100 = (y - 1) div 100"
  define p400 where "p400 = (y - 1) div 400"
  have a: "y div 4 = p4 + (if y mod 4 = 0 then 1 else 0)"
    unfolding p4_def by (rule div_step) simp
  have b: "y div 100 = p100 + (if y mod 100 = 0 then 1 else 0)"
    unfolding p100_def by (rule div_step) simp
  have c: "y div 400 = p400 + (if y mod 400 = 0 then 1 else 0)"
    unfolding p400_def by (rule div_step) simp
  have d: "y mod 400 = 0 \<Longrightarrow> y mod 100 = 0"
    using dvd_trans [of 100 400 y] by (simp add: mod_eq_0_iff_dvd)
  have e: "y mod 100 = 0 \<Longrightarrow> y mod 4 = 0"
    using dvd_trans [of 4 100 y] by (simp add: mod_eq_0_iff_dvd)
  have s: "days_before_year (y + 1) = y * 365 + y div 4 - y div 100 + y div 400"
    by (simp add: days_before_year_def)
  have t: "days_before_year y = (y - 1) * 365 + p4 - p100 + p400"
    by (simp add: days_before_year_def p4_def p100_def p400_def)
  show ?thesis
  proof (cases "y mod 4 = 0")
    case n4: False
    with e have n100: "y mod 100 \<noteq> 0" by auto
    with d have "y mod 400 \<noteq> 0" by auto
    with n4 n100 show ?thesis unfolding s t a b c is_leap_def by (simp add: algebra_simps)
  next
    case y4: True
    show ?thesis
    proof (cases "y mod 100 = 0")
      case n100: False
      with d have "y mod 400 \<noteq> 0" by auto
      with y4 n100 show ?thesis unfolding s t a b c is_leap_def by (simp add: algebra_simps)
    next
      case y100: True
      show ?thesis
      proof (cases "y mod 400 = 0")
        case False
        with y4 y100 show ?thesis unfolding s t a b c is_leap_def by (simp add: algebra_simps)
      next
        case True
        with y4 y100 show ?thesis unfolding s t a b c is_leap_def by (simp add: algebra_simps)
      qed
    qed
  qed
qed

lemma date_init_Inr:
  "date_init y m d = Inr x \<longleftrightarrow> x = \<lparr>year = y, month = m, day = d\<rparr> \<and> valid_date x"
  by (auto simp: date_init_def valid_date_def)

lemma days_before_month_step:
  assumes "1 \<le> m" "m \<le> 11"
  shows "days_before_month y (m + 1) = days_before_month y m + days_in_month y m"
proof -
  have low: "m \<le> 3 \<Longrightarrow> m = 1 \<or> m = 2 \<or> m = 3" using assms by arith
  have mid: "4 \<le> m \<Longrightarrow> m \<le> 7 \<Longrightarrow> m = 4 \<or> m = 5 \<or> m = 6 \<or> m = 7" by arith
  have high: "8 \<le> m \<Longrightarrow> m = 8 \<or> m = 9 \<or> m = 10 \<or> m = 11" using assms by arith
  have "m \<le> 3 \<or> (4 \<le> m \<and> m \<le> 7) \<or> 8 \<le> m" by arith
  with low mid high have "m = 1 \<or> m = 2 \<or> m = 3 \<or> m = 4 \<or> m = 5 \<or> m = 6 \<or> m = 7
    \<or> m = 8 \<or> m = 9 \<or> m = 10 \<or> m = 11" by blast
  then show ?thesis
    by (elim disjE) (simp_all add: days_before_month_def days_in_month_def)
qed

lemma add_one_day_ordinal:
  assumes "valid_date d" and "add_one_day d = Inr d'"
  shows "toordinal d' = toordinal d + 1 \<and> valid_date d'"
proof (cases "day d < days_in_month (year d) (month d)")
  case True
  with assms show ?thesis
    by (auto simp: add_one_day_def valid_date_def toordinal_def ymd2ord_def split: if_splits)
next
  case False
  with assms(1) have dd: "day d = days_in_month (year d) (month d)"
    by (simp add: valid_date_def)
  show ?thesis
  proof (cases "month d < 12")
    case True
    with assms False have d': "d' = \<lparr>year = year d, month = month d + 1, day = 1\<rparr>"
      by (auto simp: add_one_day_def split: if_splits)
    from assms(1) True have m: "1 \<le> month d" "month d \<le> 11" by (simp_all add: valid_date_def)
    have v: "valid_date d'" using assms(1) m
      by (auto simp: d' valid_date_def days_in_month_def)
    from days_before_month_step [OF m, of "year d"] dd v show ?thesis
      by (simp add: d' toordinal_def ymd2ord_def)
  next
    case m12: False
    with assms(1) have m: "month d = 12" by (simp add: valid_date_def)
    with dd have d31: "day d = 31" by (simp add: days_in_month_def)
    have dim: "days_in_month (year d) 12 = 31" by (simp add: days_in_month_def)
    from assms(2) have y: "year d \<noteq> 9999"
      unfolding add_one_day_def by (simp add: m d31 dim split: if_splits)
    from assms(2) have d': "d' = \<lparr>year = year d + 1, month = 1, day = 1\<rparr>"
      unfolding add_one_day_def by (simp add: m d31 dim y split: if_splits)
    have v: "valid_date d'" using assms(1) y
      by (auto simp: d' valid_date_def days_in_month_def)
    from days_before_year_step [of "year d"] v show ?thesis
      by (simp add: d' toordinal_def ymd2ord_def m d31 days_before_month_def)
  qed
qed

lemma add_one_day_weekday:
  assumes "valid_date d" and "add_one_day d = Inr d'"
  shows "weekday d' = (weekday d + 1) mod 7"
proof -
  from add_one_day_ordinal [OF assms] have "toordinal d' + 6 = (toordinal d + 6) + 1" by simp
  then have "weekday d' = ((toordinal d + 6) + 1) mod 7" by (simp only: weekday_def)
  also have "\<dots> = ((toordinal d + 6) mod 7 + 1) mod 7" by (simp only: mod_add_left_eq)
  finally show ?thesis by (simp only: weekday_def)
qed

lemma weekday_last_day: "weekday \<lparr>year = 9999, month = 12, day = 31\<rparr> = 4"
  by (simp add: weekday_def toordinal_def ymd2ord_def days_before_year_def
      days_before_month_def is_leap_def)

lemma add_one_day_returns:
  assumes "valid_date d" and "weekday d \<noteq> 4"
  shows "\<exists>d'. add_one_day d = Inr d'"
proof -
  from assms(2) weekday_last_day have "d \<noteq> \<lparr>year = 9999, month = 12, day = 31\<rparr>" by auto
  then have "\<not> (year d = 9999 \<and> month d = 12 \<and> day d = 31)" by (cases d) auto
  then show ?thesis by (auto simp: add_one_day_def)
qed

subsection \<open>Upcoming birthdays\<close>

lemma weekday_range: "0 \<le> weekday d \<and> weekday d < 7"
  by (simp add: weekday_def)

lemma roll_forward_weekday: "weekday d < 5 \<Longrightarrow> roll_forward d = Some (Inr d)"
  by (subst roll_forward.simps) simp

lemma roll_forward_weekend:
  "5 \<le> weekday d \<Longrightarrow> add_one_day d = Inr d1 \<Longrightarrow> roll_forward d = roll_forward d1"
  by (subst roll_forward.simps) simp

lemma roll_forward_sunday:
  assumes "valid_date d" and "weekday d = 6"
  shows "\<exists>d'. roll_forward d = Some (Inr d') \<and> valid_date d' \<and> weekday d' = 0
           \<and> toordinal d' = toordinal d + 1"
proof -
  from add_one_day_returns [OF assms(1)] assms(2) obtain d1 where d1: "add_one_day d = Inr d1"
    by auto
  from add_one_day_weekday [OF assms(1) d1] assms(2) have w: "weekday d1 = 0" by simp
  from roll_forward_weekend [OF _ d1] assms(2) roll_forward_weekday [of d1] w
  have "roll_forward d = Some (Inr d1)" by simp
  with add_one_day_ordinal [OF assms(1) d1] w show ?thesis by simp
qed

lemma roll_forward_saturday:
  assumes "valid_date d" and "weekday d = 5"
  shows "\<exists>d'. roll_forward d = Some (Inr d') \<and> valid_date d' \<and> weekday d' = 0
           \<and> toordinal d' = toordinal d + 2"
proof -
  from add_one_day_returns [OF assms(1)] assms(2) obtain d1 where d1: "add_one_day d = Inr d1"
    by auto
  from add_one_day_weekday [OF assms(1) d1] assms(2) have w: "weekday d1 = 6" by simp
  from add_one_day_ordinal [OF assms(1) d1] have v: "valid_date d1"
    and o: "toordinal d1 = toordinal d + 1" by simp_all
  from roll_forward_sunday [OF v w] obtain d' where
    d': "roll_forward d1 = Some (Inr d')" "valid_date d'" "weekday d' = 0"
      "toordinal d' = toordinal d1 + 1" by blast
  from roll_forward_weekend [OF _ d1] assms(2) d'(1) have "roll_forward d = Some (Inr d')" by simp
  with d' o show ?thesis by simp
qed

lemma roll_forward_returns:
  assumes "valid_date d"
  shows "\<exists>d'. roll_forward d = Some (Inr d') \<and> valid_date d' \<and> weekday d' < 5
           \<and> toordinal d' = toordinal d
                + (if weekday d = 5 then 2 else if weekday d = 6 then 1 else 0)"
proof -
  from weekday_range [of d] have "weekday d < 5 \<or> weekday d = 5 \<or> weekday d = 6" by arith
  then show ?thesis
  proof (elim disjE)
    assume "weekday d < 5"
    with roll_forward_weekday [OF this] assms show ?thesis by simp
  next
    assume w: "weekday d = 5"
    from roll_forward_saturday [OF assms w] w show ?thesis by auto
  next
    assume w: "weekday d = 6"
    from roll_forward_sunday [OF assms w] w show ?thesis by auto
  qed
qed

lemma replace_year_Inr:
  "replace_year d y = Inr x \<longleftrightarrow> x = \<lparr>year = y, month = month d, day = day d\<rparr> \<and> valid_date x"
  by (simp add: replace_year_def date_init_Inr)

lemma replace_year_other_day:
  assumes "valid_date d" and "\<not> (month d = 2 \<and> day d = 29)" and "1 \<le> y" and "y \<le> 9999"
  shows "replace_year d y = Inr \<lparr>year = y, month = month d, day = day d\<rparr>"
proof -
  from assms(1,2) have "day d \<le> days_in_month y (month d)"
    by (auto simp: valid_date_def days_in_month_def split: if_splits)
  with assms show ?thesis
    by (simp add: replace_year_Inr valid_date_def)
qed

lemma get_upcoming_birthdays_projected:
  assumes "birthday r = Some b"
    and "replace_year (date b) (year today) = Inr nb"
    and "(if date_lt nb today then replace_year nb (year today + 1) else Inr nb) = Inr p"
  shows "\<exists>next_birthday. roll_forward p = Some (Inr next_birthday)
     \<and> valid_date next_birthday \<and> weekday next_birthday < 5
     \<and> toordinal next_birthday
          = toordinal p + (if weekday p = 5 then 2 else if weekday p = 6 then 1 else 0)
     \<and> get_upcoming_birthdays today r
          = Some (Inr (if 0 \<le> toordinal next_birthday - toordinal today
                          \<and> toordinal next_birthday - toordinal today \<le> 7
                       then [\<lparr>uname = fvalue (name r),
                              congratulation_date = strftime_dmY next_birthday\<rparr>]
                       else []))"
proof -
  from assms(2,3) have "valid_date p"
    by (auto simp: replace_year_Inr split: if_splits)
  from roll_forward_returns [OF this] obtain d' where
    d': "roll_forward p = Some (Inr d')" "valid_date d'" "weekday d' < 5"
      "toordinal d' = toordinal p + (if weekday p = 5 then 2 else if weekday p = 6 then 1 else 0)"
    by blast
  have "get_upcoming_birthdays today r
          = Some (Inr (if 0 \<le> toordinal d' - toordinal today
                          \<and> toordinal d' - toordinal today \<le> 7
                       then [\<lparr>uname = fvalue (name r),
                              congratulation_date = strftime_dmY d'\<rparr>]
                       else []))"
    unfolding get_upcoming_birthdays_def by (simp add: assms d'(1) Let_def)
  with d' show ?thesis by blast
qed


lemma get_upcoming_birthdays_raises:
  assumes "birthday r = Some b"
  shows "replace_year (date b) (year today) = Inl e \<Longrightarrow>
           get_upcoming_birthdays today r = Some (Inl e)"
    and "replace_year (date b) (year today) = Inr nb \<Longrightarrow> date_lt nb today \<Longrightarrow>
           replace_year nb (year today + 1) = Inl e \<Longrightarrow>
           get_upcoming_birthdays today r = Some (Inl e)"
  using assms by (simp_all add: get_upcoming_birthdays_def)

text \<open>
  C1. For a record with a birthday, on a day \<open>today\<close>: the computation always returns or
  raises, and it returns whenever the birthday is not 29 February and the year of \<open>today\<close> is
  before 9999. Whenever it returns, the date \<open>p\<close> it starts from is the month and day of the
  birthday in the year of \<open>today\<close>, or in the next year when that date is before \<open>today\<close>; the
  loop rolls \<open>p\<close> forward to \<open>next_birthday\<close>, which is \<open>p\<close> itself on a weekday, two days
  later for a Saturday and one day later for a Sunday, and is never a Saturday or a Sunday;
  the result is the one entry with the name and \<open>next_birthday\<close> formatted as DD.MM.YYYY if
  \<open>0 \<le> next_birthday - today \<le> 7\<close> in days, and empty otherwise.
\<close>

theorem upcoming_birthday_window:
  assumes "birthday r = Some b"
  shows "(\<exists>res. get_upcoming_birthdays today r = Some res)
    \<and> (valid_date today \<and> valid_date (date b)
        \<and> \<not> (month (date b) = 2 \<and> day (date b) = 29) \<and> year today < 9999 \<longrightarrow>
         (\<exists>out. get_upcoming_birthdays today r = Some (Inr out)))
    \<and> (\<forall>out. get_upcoming_birthdays today r = Some (Inr out) \<longrightarrow>
         (\<exists>p next_birthday.
            p = \<lparr>year = (if date_lt \<lparr>year = year today, month = month (date b), day = day (date b)\<rparr> today
                         then year today + 1 else year today),
                 month = month (date b), day = day (date b)\<rparr>
            \<and> valid_date p
            \<and> roll_forward p = Some (Inr next_birthday)
            \<and> valid_date next_birthday \<and> weekday next_birthday < 5
            \<and> toordinal next_birthday
                 = toordinal p + (if weekday p = 5 then 2 else if weekday p = 6 then 1 else 0)
            \<and> out = (if 0 \<le> toordinal next_birthday - toordinal today
                          \<and> toordinal next_birthday - toordinal today \<le> 7
                       then [\<lparr>uname = fvalue (name r),
                              congratulation_date = strftime_dmY next_birthday\<rparr>]
                       else [])))"
proof (intro conjI allI impI)
  show "\<exists>res. get_upcoming_birthdays today r = Some res"
  proof (cases "replace_year (date b) (year today)")
    case (Inl e)
    from get_upcoming_birthdays_raises(1) [OF assms(1) Inl] show ?thesis by blast
  next
    case (Inr nb)
    show ?thesis
    proof (cases "if date_lt nb today then replace_year nb (year today + 1) else Inr nb")
      case (Inl e)
      then have "date_lt nb today" "replace_year nb (year today + 1) = Inl e"
        by (simp_all split: if_splits)
      from get_upcoming_birthdays_raises(2) [OF assms(1) Inr this] show ?thesis by blast
    next
      case p: (Inr p)
      from get_upcoming_birthdays_projected [OF assms(1) Inr p] show ?thesis by blast
    qed
  qed
next
  assume a: "valid_date today \<and> valid_date (date b)
        \<and> \<not> (month (date b) = 2 \<and> day (date b) = 29) \<and> year today < 9999"
  then have vt: "valid_date today" and vb: "valid_date (date b)" by simp_all
  let ?nb = "\<lparr>year = year today, month = month (date b), day = day (date b)\<rparr>"
  from vt a have y: "1 \<le> year today" "year today \<le> 9999" "1 \<le> year today + 1"
    "year today + 1 \<le> 9999" by (simp_all add: valid_date_def)
  from a have nf: "\<not> (month (date b) = 2 \<and> day (date b) = 29)" by simp
  from replace_year_other_day [OF vb nf y(1,2)]
  have nb: "replace_year (date b) (year today) = Inr ?nb" .
  then have v: "valid_date ?nb" by (simp add: replace_year_Inr)
  from nf have nf': "\<not> (month ?nb = 2 \<and> day ?nb = 29)" by simp
  from replace_year_other_day [OF v nf' y(3,4)]
  have "\<exists>p. (if date_lt ?nb today then replace_year ?nb (year today + 1) else Inr ?nb) = Inr p"
    by simp
  then obtain p where "(if date_lt ?nb today then replace_year ?nb (year today + 1) else Inr ?nb) = Inr p"
    by blast
  from get_upcoming_birthdays_projected [OF assms(1) nb this]
  show "\<exists>out. get_upcoming_birthdays today r = Some (Inr out)" by blast
next
  fix out
  assume res: "get_upcoming_birthdays today r = Some (Inr out)"
  let ?nb = "\<lparr>year = year today, month = month (date b), day = day (date b)\<rparr>"
  let ?p = "\<lparr>year = (if date_lt ?nb today then year today + 1 else year today),
             month = month (date b), day = day (date b)\<rparr>"
  have nb: "replace_year (date b) (year today) = Inr ?nb"
  proof (cases "replace_year (date b) (year today)")
    case (Inl e)
    from get_upcoming_birthdays_raises(1) [OF assms(1) Inl] res show ?thesis by simp
  next
    case (Inr x)
    then show ?thesis by (auto simp: replace_year_Inr)
  qed
  have p: "(if date_lt ?nb today then replace_year ?nb (year today + 1) else Inr ?nb) = Inr ?p"
  proof (cases "if date_lt ?nb today then replace_year ?nb (year today + 1) else Inr ?nb")
    case (Inl e)
    then have "date_lt ?nb today" "replace_year ?nb (year today + 1) = Inl e"
      by (simp_all split: if_splits)
    from get_upcoming_birthdays_raises(2) [OF assms(1) nb this] res show ?thesis by simp
  next
    case (Inr x)
    then show ?thesis by (auto simp: replace_year_Inr split: if_splits)
  qed
  from nb p have v: "valid_date ?p" by (auto simp: replace_year_Inr split: if_splits)
  from get_upcoming_birthdays_projected [OF assms(1) nb p] res v
  show "\<exists>p next_birthday.
            p = ?p
            \<and> valid_date p
            \<and> roll_forward p = Some (Inr next_birthday)
            \<and> valid_date next_birthday \<and> weekday next_birthday < 5
            \<and> toordinal next_birthday
                 = toordinal p + (if weekday p = 5 then 2 else if weekday p = 6 then 1 else 0)
            \<and> out = (if 0 \<le> toordinal next_birthday - toordinal today
                          \<and> toordinal next_birthday - toordinal today \<le> 7
                       then [\<lparr>uname = fvalue (name r),
                              congratulation_date = strftime_dmY next_birthday\<rparr>]
                       else [])"
    by auto
qed

theorem upcoming_birthday_window_witness:
  "get_upcoming_birthdays \<lparr>year = 2024, month = 1, day = 1\<rparr>
      \<lparr>name = \<lparr>fvalue = ''Bob''\<rparr>, phones = [],
       birthday = Some \<lparr>fvalue = ''06.01.1990'', date = \<lparr>year = 1990, month = 1, day = 6\<rparr>\<rparr>\<rparr>
     = Some (Inr [\<lparr>uname = ''Bob'', congratulation_date = ''08.01.2024''\<rparr>])
   \<and> weekday \<lparr>year = 2024, month = 1, day = 1\<rparr> = 0
   \<and> weekday \<lparr>year = 2024, month = 1, day = 6\<rparr> = 5
   \<and> (\<exists>next_birthday.
         roll_forward \<lparr>year = 2024, month = 1, day = 6\<rparr> = Some (Inr next_birthday)
         \<and> weekday next_birthday < 5
         \<and> toordinal next_birthday - toordinal \<lparr>year = 2024, month = 1, day = 1\<rparr> = 7
         \<and> strftime_dmY next_birthday = ''08.01.2024'')
   \<and> weekday \<lparr>year = 2023, month = 12, day = 31\<rparr> = 6
   \<and> get_upcoming_birthdays \<lparr>year = 2023, month = 12, day = 31\<rparr>
      \<lparr>name = \<lparr>fvalue = ''Bob''\<rparr>, phones = [],
       birthday = Some \<lparr>fvalue = ''06.01.1990'', date = \<lparr>year = 1990, month = 1, day = 6\<rparr>\<rparr>\<rparr>
     = Some (Inr [])"
proof -
  let ?today = "\<lparr>year = 2024, month = 1, day = 1\<rparr>"
  let ?b = "\<lparr>fvalue = ''06.01.1990'', date = \<lparr>year = 1990, month = 1, day = 6\<rparr>\<rparr>"
  let ?r = "\<lparr>name = \<lparr>fvalue = ''Bob''\<rparr>, phones = [], birthday = Some ?b\<rparr>"
  have h1: "birthday ?r = Some ?b" by simp
  have ev: "get_upcoming_birthdays ?today ?r
            = Some (Inr [\<lparr>uname = ''Bob'', congratulation_date = ''08.01.2024''\<rparr>])"
    by code_simp
  have lt: "\<not> date_lt \<lparr>year = 2024, month = 1, day = 6\<rparr> ?today" by (simp add: date_lt_def)
  have w0: "weekday ?today = 0"
    by (simp add: weekday_def toordinal_def ymd2ord_def days_before_year_def
        days_before_month_def)
  have w: "weekday \<lparr>year = 2024, month = 1, day = 6\<rparr> = 5"
    by (simp add: weekday_def toordinal_def ymd2ord_def days_before_year_def
        days_before_month_def)
  have o: "toordinal \<lparr>year = 2024, month = 1, day = 6\<rparr> = toordinal ?today + 5"
    by (simp add: toordinal_def ymd2ord_def days_before_year_def days_before_month_def)
  from upcoming_birthday_window [OF h1, THEN conjunct2, THEN conjunct2, rule_format, OF ev]
  obtain next_birthday where
    nb: "roll_forward \<lparr>year = 2024, month = 1, day = 6\<rparr> = Some (Inr next_birthday)"
      "weekday next_birthday < 5"
      "toordinal next_birthday = toordinal \<lparr>year = 2024, month = 1, day = 6\<rparr> + 2"
      "[\<lparr>uname = ''Bob'', congratulation_date = ''08.01.2024''\<rparr>]
        = (if 0 \<le> toordinal next_birthday - toordinal ?today
               \<and> toordinal next_birthday - toordinal ?today \<le> 7
           then [\<lparr>uname = fvalue (name ?r), congratulation_date = strftime_dmY next_birthday\<rparr>]
           else [])"
    using lt w by auto
  from nb(3) o have d: "toordinal next_birthday - toordinal ?today = 7" by simp
  with nb(4) have "strftime_dmY next_birthday = ''08.01.2024''" by simp
  have w6: "weekday \<lparr>year = 2023, month = 12, day = 31\<rparr> = 6"
    by (simp add: weekday_def toordinal_def ymd2ord_def days_before_year_def
        days_before_month_def is_leap_def)
  have ev': "get_upcoming_birthdays \<lparr>year = 2023, month = 12, day = 31\<rparr> ?r = Some (Inr [])"
    by code_simp
  from ev w0 w nb(1,2) d \<open>strftime_dmY next_birthday = ''08.01.2024''\<close> w6 ev'
  show ?thesis by blast
qed

lemma leap_next_year: "is_leap y \<Longrightarrow> \<not> is_leap (y + 1)"
proof -
  assume "is_leap y"
  then have "y mod 4 = 0" by (simp add: is_leap_def)
  then have "(y + 1) mod 4 \<noteq> 0" by presburger
  then show ?thesis by (simp add: is_leap_def)
qed

lemma leap_not_last: "is_leap y \<Longrightarrow> y \<noteq> 9999"
  by (auto simp: is_leap_def)

lemma feb29_replace:
  assumes "month d = 2" and "day d = 29" and "1 \<le> y" and "y \<le> 9999"
  shows "replace_year d y
         = (if is_leap y then Inr \<lparr>year = y, month = 2, day = 29\<rparr>
            else Inl (ValueError ''day is out of range for month''))"
  using assms by (simp add: replace_year_def date_init_def days_in_month_def)

text \<open>
  C8. For a record whose birthday is 29 February, on a day \<open>today\<close>: when the year of \<open>today\<close>
  is not a leap year the computation raises the \<open>ValueError\<close> of \<open>date.replace\<close>; when it is
  a leap year and 29 February of it is before \<open>today\<close>, the year after, which is never a leap
  year, is projected onto and the computation raises the same error. In the one case left,
  a leap year with 29 February not yet past, it returns.
\<close>

theorem feb29_raises:
  assumes "birthday r = Some b" and "month (date b) = 2" and "day (date b) = 29"
    and "valid_date today"
  shows "(\<not> is_leap (year today) \<longrightarrow>
            (\<exists>msg. get_upcoming_birthdays today r = Some (Inl (ValueError msg))))
    \<and> (is_leap (year today) \<and> date_lt \<lparr>year = year today, month = 2, day = 29\<rparr> today \<longrightarrow>
          \<not> is_leap (year today + 1)
          \<and> (\<exists>msg. get_upcoming_birthdays today r = Some (Inl (ValueError msg))))
    \<and> (is_leap (year today) \<and> \<not> date_lt \<lparr>year = year today, month = 2, day = 29\<rparr> today \<longrightarrow>
          (\<exists>out. get_upcoming_birthdays today r = Some (Inr out)))"
proof -
  let ?nb = "\<lparr>year = year today, month = 2, day = 29\<rparr>"
  let ?e = "ValueError ''day is out of range for month''"
  from assms(4) have y: "1 \<le> year today" "year today \<le> 9999" by (simp_all add: valid_date_def)
  note first = feb29_replace [OF assms(2,3) y]
  have not_leap: "get_upcoming_birthdays today r = Some (Inl ?e)" if "\<not> is_leap (year today)"
  proof -
    from first that have "replace_year (date b) (year today) = Inl ?e" by simp
    from get_upcoming_birthdays_raises(1) [OF assms(1) this] show ?thesis .
  qed
  have past: "\<not> is_leap (year today + 1) \<and> get_upcoming_birthdays today r = Some (Inl ?e)"
    if l: "is_leap (year today)" and lt: "date_lt ?nb today"
  proof -
    from leap_next_year [OF l] have n: "\<not> is_leap (year today + 1)" .
    from first l have nb: "replace_year (date b) (year today) = Inr ?nb" by simp
    from leap_not_last [OF l] y have y': "1 \<le> year today + 1" "year today + 1 \<le> 9999"
      by simp_all
    have "replace_year ?nb (year today + 1) = Inl ?e"
      using feb29_replace [of ?nb, OF _ _ y'] n by simp
    from get_upcoming_birthdays_raises(2) [OF assms(1) nb lt this] n show ?thesis by simp
  qed
  have ahead: "\<exists>out. get_upcoming_birthdays today r = Some (Inr out)"
    if l: "is_leap (year today)" and nlt: "\<not> date_lt ?nb today"
  proof -
    from first l have nb: "replace_year (date b) (year today) = Inr ?nb" by simp
    from nlt have "(if date_lt ?nb today then replace_year ?nb (year today + 1) else Inr ?nb)
                   = Inr ?nb" by simp
    from get_upcoming_birthdays_projected [OF assms(1) nb this] show ?thesis by blast
  qed
  from not_leap past ahead show ?thesis by blast
qed

theorem feb29_raises_witness:
  "(\<exists>msg. get_upcoming_birthdays \<lparr>year = 2023, month = 3, day = 1\<rparr>
      \<lparr>name = \<lparr>fvalue = ''Eve''\<rparr>, phones = [],
       birthday = Some \<lparr>fvalue = ''29.02.2020'', date = \<lparr>year = 2020, month = 2, day = 29\<rparr>\<rparr>\<rparr>
     = Some (Inl (ValueError msg)))
   \<and> (\<exists>msg. get_upcoming_birthdays \<lparr>year = 2024, month = 3, day = 1\<rparr>
      \<lparr>name = \<lparr>fvalue = ''Eve''\<rparr>, phones = [],
       birthday = Some \<lparr>fvalue = ''29.02.2020'', date = \<lparr>year = 2020, month = 2, day = 29\<rparr>\<rparr>\<rparr>
     = Some (Inl (ValueError msg)))
   \<and> (\<exists>out. get_upcoming_birthdays \<lparr>year = 2024, month = 2, day = 26\<rparr>
      \<lparr>name = \<lparr>fvalue = ''Eve''\<rparr>, phones = [],
       birthday = Some \<lparr>fvalue = ''29.02.2020'', date = \<lparr>year = 2020, month = 2, day = 29\<rparr>\<rparr>\<rparr>
     = Some (Inr out))"
proof -
  let ?b = "\<lparr>fvalue = ''29.02.2020'', date = \<lparr>year = 2020, month = 2, day = 29\<rparr>\<rparr>"
  let ?r = "\<lparr>name = \<lparr>fvalue = ''Eve''\<rparr>, phones = [], birthday = Some ?b\<rparr>"
  have h1: "birthday ?r = Some ?b" and h2: "month (date ?b) = 2" and h3: "day (date ?b) = 29"
    by simp_all
  have v1: "valid_date \<lparr>year = 2023, month = 3, day = 1\<rparr>"
    and v2: "valid_date \<lparr>year = 2024, month = 3, day = 1\<rparr>"
    and v3: "valid_date \<lparr>year = 2024, month = 2, day = 26\<rparr>"
    by (simp_all add: valid_date_def days_in_month_def is_leap_def)
  have l1: "\<not> is_leap 2023" and l2: "is_leap 2024" by (simp_all add: is_leap_def)
  have a: "\<exists>msg. get_upcoming_birthdays \<lparr>year = 2023, month = 3, day = 1\<rparr> ?r
           = Some (Inl (ValueError msg))"
    using feb29_raises [OF h1 h2 h3 v1] l1 by simp
  have b: "\<exists>msg. get_upcoming_birthdays \<lparr>year = 2024, month = 3, day = 1\<rparr> ?r
           = Some (Inl (ValueError msg))"
    using feb29_raises [OF h1 h2 h3 v2] l2 by (simp add: date_lt_def)
  have c: "\<exists>out. get_upcoming_birthdays \<lparr>year = 2024, month = 2, day = 26\<rparr> ?r = Some (Inr out)"
    using feb29_raises [OF h1 h2 h3 v3] l2 by (simp add: date_lt_def)
  from a b c show ?thesis by blast
qed

subsection \<open>Adding a birthday\<close>

text \<open>
  C7. When the contact found under the name already has a birthday, the handler
  \<open>add_birthday\<close> returns "Birthday already exists for <name>." whatever the date argument
  is, and the book, so the birthday of the contact with its string and its date, is what it
  was. The guard is the handler's: \<open>Record.add_birthday\<close> itself sets the birthday to every
  date it can parse, whether or not the record had one.
\<close>

theorem add_birthday_keeps_existing:
  "(find_record book nm = Some r \<and> birthday r = Some b \<longrightarrow>
      add_birthday [nm, d] book = (Inr (''Birthday already exists for '' @ nm @ ''.''), book))
   \<and> (Birthday_init raw = Inr b' \<longrightarrow>
        Record_add_birthday r' raw = Inr (r'\<lparr>birthday := Some b'\<rparr>))"
  by (simp add: add_birthday_def add_birthday_body_def input_error_def Record_add_birthday_def)

theorem add_birthday_keeps_existing_witness:
  "add_birthday [''Alice'', ''06.01.2024'']
      [(''Alice'', \<lparr>name = \<lparr>fvalue = ''Alice''\<rparr>, phones = [],
          birthday = Some \<lparr>fvalue = ''05.01.2024'', date = \<lparr>year = 2024, month = 1, day = 5\<rparr>\<rparr>\<rparr>)]
     = (Inr ''Birthday already exists for Alice.'',
        [(''Alice'', \<lparr>name = \<lparr>fvalue = ''Alice''\<rparr>, phones = [],
          birthday = Some \<lparr>fvalue = ''05.01.2024'', date = \<lparr>year = 2024, month = 1, day = 5\<rparr>\<rparr>\<rparr>)])
   \<and> Record_add_birthday \<lparr>name = \<lparr>fvalue = ''Alice''\<rparr>, phones = [],
          birthday = Some \<lparr>fvalue = ''05.01.2024'', date = \<lparr>year = 2024, month = 1, day = 5\<rparr>\<rparr>\<rparr>
        ''06.01.2024''
     = Inr \<lparr>name = \<lparr>fvalue = ''Alice''\<rparr>, phones = [],
          birthday = Some \<lparr>fvalue = ''06.01.2024'', date = \<lparr>year = 2024, month = 1, day = 6\<rparr>\<rparr>\<rparr>"
proof -
  let ?b = "\<lparr>fvalue = ''05.01.2024'', date = \<lparr>year = 2024, month = 1, day = 5\<rparr>\<rparr>"
  let ?r = "\<lparr>name = \<lparr>fvalue = ''Alice''\<rparr>, phones = [], birthday = Some ?b\<rparr>"
  have f: "find_record [(''Alice'', ?r)] ''Alice'' = Some ?r \<and> birthday ?r = Some ?b"
    by (simp add: find_record_def)
  have p: "Birthday_init ''06.01.2024''
           = Inr \<lparr>fvalue = ''06.01.2024'', date = \<lparr>year = 2024, month = 1, day = 6\<rparr>\<rparr>"
    by code_simp
  from add_birthday_keeps_existing
    [of "[(''Alice'', ?r)]" "''Alice''" ?r ?b "''06.01.2024''" "''06.01.2024''"
        "\<lparr>fvalue = ''06.01.2024'', date = \<lparr>year = 2024, month = 1, day = 6\<rparr>\<rparr>" ?r] f p
  show ?thesis by simp
qed

subsection \<open>Birthdays from strings\<close>





lemma char_dot: "c = CHR ''.'' \<longleftrightarrow> (of_char c :: nat) = 46"
proof -
  have e: "(of_char CHR ''.'' :: nat) = 46" by simp
  show ?thesis unfolding e [symmetric] by (simp only: of_char_eq_iff)
qed




















lemma strptime_dmY_Inl: "strptime_dmY s = Inl e \<Longrightarrow> \<exists>msg. e = ValueError msg"
  by (auto simp: strptime_dmY_def Let_def date_init_def split: if_splits)

lemma Birthday_init_cases:
  "Birthday_init s = (case strptime_dmY s of
      Inl e \<Rightarrow> Inl (ValueError ''Invalid date format. Use DD.MM.YYYY'')
    | Inr d \<Rightarrow> Inr \<lparr>fvalue = s, date = d\<rparr>)"
proof (cases "strptime_dmY s")
  case (Inl e)
  with strptime_dmY_Inl [OF Inl] show ?thesis by (auto simp: Birthday_init_def)
next
  case (Inr d)
  then show ?thesis by (simp add: Birthday_init_def)
qed





subsection \<open>The command loop\<close>

text \<open>
  Every handler returns a string, whatever its arguments and the book: what it raises is a
  \<open>ValueError\<close> or an \<open>IndexError\<close>, which the decorator turns into the string. So a turn of
  the loop on a line that has a first word prints and goes on, or saves and leaves; only a
  line without a word makes it raise.
\<close>

lemma date_init_Inl: "date_init y m d = Inl e \<Longrightarrow> \<exists>msg. e = ValueError msg"
  by (auto simp: date_init_def split: if_splits)

lemma get_upcoming_birthdays_total:
  "(\<exists>out. get_upcoming_birthdays today r = Some (Inr out))
   \<or> (\<exists>msg. get_upcoming_birthdays today r = Some (Inl (ValueError msg)))"
proof (cases "birthday r")
  case None
  then show ?thesis by (simp add: get_upcoming_birthdays_def)
next
  case (Some b)
  show ?thesis
  proof (cases "replace_year (date b) (year today)")
    case (Inl e)
    with date_init_Inl obtain msg where "e = ValueError msg"
      unfolding replace_year_def by blast
    with get_upcoming_birthdays_raises(1) [OF Some Inl] show ?thesis by blast
  next
    case (Inr nb)
    show ?thesis
    proof (cases "if date_lt nb today then replace_year nb (year today + 1) else Inr nb")
      case (Inl e)
      then have lt: "date_lt nb today" and e: "replace_year nb (year today + 1) = Inl e"
        by (simp_all split: if_splits)
      from e date_init_Inl obtain msg where "e = ValueError msg"
        unfolding replace_year_def by blast
      with get_upcoming_birthdays_raises(2) [OF Some Inr lt e] show ?thesis by blast
    next
      case p: (Inr p)
      from get_upcoming_birthdays_projected [OF Some Inr p] show ?thesis by blast
    qed
  qed
qed

lemma birthdays_loop_total:
  "(\<exists>us. birthdays_loop today rs = Some (Inr us))
   \<or> (\<exists>msg. birthdays_loop today rs = Some (Inl (ValueError msg)))"
proof (induction rs)
  case Nil
  then show ?case by simp
next
  case (Cons r rs)
  show ?case
  proof (cases "birthday r")
    case None
    with Cons.IH show ?thesis by simp
  next
    case (Some b)
    from get_upcoming_birthdays_total [of today r] Cons.IH Some show ?thesis
      by (elim disjE exE) simp_all
  qed
qed

lemma input_error_ValueError: "input_error (Inl (ValueError msg), book) = (Inr (''ValueError: '' @ msg), book)"
  by (simp add: input_error_def)

lemma input_error_IndexError: "input_error (Inl IndexError, book) = (Inr ''IndexError'', book)"
  by (simp add: input_error_def)

lemma input_error_Inr: "input_error (Inr s, book) = (Inr s, book)"
  by (simp add: input_error_def)

lemma birthdays_returns: "\<exists>s. birthdays today args book = Some (Inr s, book)"
  using birthdays_loop_total [of today "map snd book"]
  by (elim disjE exE)
     (simp_all add: birthdays_def birthdays_body_def Let_def input_error_ValueError input_error_Inr)


lemma add_phone_Inl: "add_phone r phone = Inl e \<Longrightarrow> \<exists>msg. e = ValueError msg"
  by (auto simp: add_phone_def split: sum.splits error.splits dest: Phone_init_error)

lemma edit_phone_loop_Inl:
  "edit_phone_loop ps old_phone new_phone = Inl e \<Longrightarrow> \<exists>msg. e = ValueError msg"
  by (induction ps) (auto split: if_splits sum.splits error.splits dest: Phone_init_error)

lemma edit_phone_Inl: "edit_phone r old_phone new_phone = Inl e \<Longrightarrow> \<exists>msg. e = ValueError msg"
  by (auto simp: edit_phone_def split: sum.splits dest: edit_phone_loop_Inl)

lemma Record_add_birthday_Inl:
  "Record_add_birthday r raw = Inl e \<Longrightarrow> \<exists>msg. e = ValueError msg"
  by (auto simp: Record_add_birthday_def Birthday_init_cases split: sum.splits error.splits)

lemma input_error_returns:
  assumes "\<And>e. fst res = Inl e \<Longrightarrow> (\<exists>msg. e = ValueError msg) \<or> e = IndexError"
  shows "\<exists>s. input_error res = (Inr s, snd res)"
proof (cases res)
  case (Pair x book)
  show ?thesis
  proof (cases x)
    case (Inl e)
    with assms [of e] Pair show ?thesis
      by (auto simp: input_error_ValueError input_error_IndexError)
  next
    case (Inr s)
    with Pair show ?thesis by (simp add: input_error_Inr)
  qed
qed

lemma add_contact_returns: "\<exists>s book'. add_contact args book = (Inr s, book')"
proof -
  have "(\<exists>msg. e = ValueError msg) \<or> e = IndexError"
    if "fst (add_contact_body args book) = Inl e" for e
    using that
    by (auto simp: add_contact_body_def Let_def
        split: if_splits list.splits option.splits sum.splits dest: add_phone_Inl)
  from input_error_returns [of "add_contact_body args book", OF this]
  show ?thesis by (auto simp: add_contact_def)
qed

lemma change_contact_returns: "\<exists>s book'. change_contact args book = (Inr s, book')"
proof -
  have "(\<exists>msg. e = ValueError msg) \<or> e = IndexError"
    if "fst (change_contact_body args book) = Inl e" for e
    using that
    by (auto simp: change_contact_body_def
        split: if_splits list.splits option.splits sum.splits error.splits
        dest: edit_phone_Inl)
  from input_error_returns [of "change_contact_body args book", OF this]
  show ?thesis by (auto simp: change_contact_def)
qed

lemma add_birthday_returns: "\<exists>s book'. add_birthday args book = (Inr s, book')"
proof -
  have "(\<exists>msg. e = ValueError msg) \<or> e = IndexError"
    if "fst (add_birthday_body args book) = Inl e" for e
    using that
    by (auto simp: add_birthday_body_def
        split: if_splits list.splits option.splits sum.splits error.splits
        dest: Record_add_birthday_Inl)
  from input_error_returns [of "add_birthday_body args book", OF this]
  show ?thesis by (auto simp: add_birthday_def)
qed

lemma show_birthday_returns: "\<exists>s book'. show_birthday args book = (Inr s, book')"
proof -
  have "(\<exists>msg. e = ValueError msg) \<or> e = IndexError"
    if "fst (show_birthday_body args book) = Inl e" for e
    using that
    by (auto simp: show_birthday_body_def split: list.splits option.splits)
  from input_error_returns [of "show_birthday_body args book", OF this]
  show ?thesis by (auto simp: show_birthday_def)
qed

lemma show_phones_returns: "\<exists>s book'. show_phones args book = (Inr s, book')"
  by (auto simp: show_phones_def show_phones_body_def input_error_Inr
      split: list.splits option.splits)

lemma show_all_returns: "\<exists>s book'. show_all book = (Inr s, book')"
  by (auto simp: show_all_def show_all_body_def input_error_Inr)

lemma print_result_Inr: "print_result (Inr s, book) = Continue [s] book"
  by (simp add: print_result_def)

lemma main_step_tokens:
  assumes "parse_input user_input = command # args"
  shows "\<exists>out book'. main_step today book user_input = Some (Continue out book')
                     \<or> main_step today book user_input = Some (Closed out book')"
proof -
  from add_contact_returns [of args book] change_contact_returns [of args book]
    show_phones_returns [of args book] show_all_returns [of book]
    add_birthday_returns [of args book] show_birthday_returns [of args book]
    birthdays_returns [of today args book]
  obtain s1 b1 s2 b2 s3 b3 s4 b4 s5 b5 s6 b6 s7 where
    "add_contact args book = (Inr s1, b1)" "change_contact args book = (Inr s2, b2)"
    "show_phones args book = (Inr s3, b3)" "show_all book = (Inr s4, b4)"
    "add_birthday args book = (Inr s5, b5)" "show_birthday args book = (Inr s6, b6)"
    "birthdays today args book = Some (Inr s7, book)"
    by blast
  with assms show ?thesis
    by (simp add: main_step_def print_result_Inr)
qed

lemma main_step_raises_iff:
  "(\<exists>e out book'. main_step today book user_input = Some (Raised e out book'))
     \<longleftrightarrow> parse_input user_input = []"
proof (cases "parse_input user_input")
  case Nil
  then show ?thesis by (simp add: main_step_def)
next
  case (Cons command args)
  from main_step_tokens [OF this, of today book] Cons show ?thesis by auto
qed

text \<open>
  C2. An empty input line becomes the empty argument list, goes to the branch that prints
  "Invalid command.", and the loop reads on. The code does the first step only:
  \<open>parse_input\<close> returns the empty list, and the unpacking \<open>command, *args = []\<close> in \<open>main\<close>,
  outside every handler, raises a \<open>ValueError\<close> that nothing catches. Nothing is printed
  and the loop is left, whatever lines would follow.
\<close>

theorem main_loop_empty_line:
  "parse_input [] = []
   \<and> main_step today book []
       = Some (Raised (ValueError ''not enough values to unpack (expected at least 1, got 0)'') [] book)
   \<and> main_loop today book ([] # inputs)
       = Some (Raised (ValueError ''not enough values to unpack (expected at least 1, got 0)'') [] book)"
  by (simp add: parse_input_def main_step_def)

end
